theory Spec2Isabelle
  imports Main "HOL-Library.Multiset"
begin

section \<open>The encrypted-send workflow of \<^verbatim>\<open>send_msg.py\<close>\<close>

text \<open>
  The script is glue between an XMPP client library and an OMEMO plugin. The model keeps
  the two collaborators outside: the session is a trace of the calls the workflow makes
  on it, and the OMEMO plugin is a pair of functions over an abstract plugin state.
  Everything between them (the stanza construction, the retry loop, its four handlers
  and its cleanup block) is translated line by line.
\<close>

subsection \<open>Data\<close>

text \<open>A bare address wrapped by the library's \<^verbatim>\<open>JID(...)\<close> constructor.\<close>

datatype jid = JID string

type_synonym device = int

text \<open>The opaque \<^verbatim>\<open><encrypted/>\<close> element returned by the plugin.\<close>

datatype envelope = Envelope string

text \<open>
  \<^verbatim>\<open>expect_problems\<close>, a dict from JID to a list of device numbers. Python dicts keep
  insertion order, so the model is an association list with one pair per key.
\<close>

type_synonym problems = "(jid \<times> device list) list"

text \<open>
  A message stanza: the fields the script sets. \<^verbatim>\<open>make_message(mto, mtype)\<close> fills the
  first two, \<^verbatim>\<open>msg['body']\<close>, \<^verbatim>\<open>msg['eme'][...]\<close> and \<^verbatim>\<open>msg.append\<close> the others.
\<close>

record stanza =
  mto :: string
  mtype :: string
  body :: "string option"
  eme_namespace :: "string option"
  eme_name :: "string option"
  payload :: "envelope list"

text \<open>The members of \<^verbatim>\<open>exn.errors\<close> of an \<^verbatim>\<open>EncryptionPrepareException\<close>.\<close>

datatype sub_error =
    MissingBundleException string device
  | OtherSubError string

text \<open>
  What \<^verbatim>\<open>encrypt_message\<close> can raise, by the handler that catches it. The string of
  the last three is the exception's \<^verbatim>\<open>repr\<close>; \<^verbatim>\<open>OtherException\<close> stands for every
  other subclass of \<^verbatim>\<open>Exception\<close>.
\<close>

datatype exn =
    UndecidedException string device string
  | EncryptionPrepareException "sub_error list"
  | IqError string
  | IqTimeout string
  | OtherException string

text \<open>
  The calls the workflow makes on its collaborators, in program order: \<^verbatim>\<open>msg.send()\<close>,
  \<^verbatim>\<open>self.disconnect()\<close>, and the two plugin calls with their arguments.
\<close>

datatype event =
    Send stanza
  | Disconnect
  | EncryptCall string "jid list" problems
  | TrustCall string device string

text \<open>The world outside the workflow: the plugin's own state and the trace.\<close>

record 'p world =
  omemo :: 'p
  trace :: "event list"

text \<open>
  The plugin \<^verbatim>\<open>self['xep_0384']\<close>. It is a third-party library, so its two methods are
  parameters of the model; \<^verbatim>\<open>encrypt_message\<close> returns the envelope (\<open>Inr\<close>) or
  raises (\<open>Inl\<close>).
\<close>

record 'p xep_0384 =
  encrypt_message :: "'p \<Rightarrow> string \<Rightarrow> jid list \<Rightarrow> problems \<Rightarrow> (exn + envelope) \<times> 'p"
  trust :: "'p \<Rightarrow> string \<Rightarrow> device \<Rightarrow> string \<Rightarrow> 'p"

text \<open>
  The \<^verbatim>\<open>SendMsg\<close> object: the two attributes set by \<^verbatim>\<open>__init__\<close> and the
  \<^verbatim>\<open>mechanisms\<close> table of the \<^verbatim>\<open>xep_0380\<close> plugin, which the script only reads.
\<close>

record send_msg =
  to :: string
  msg :: string
  mechanisms :: "(string \<times> string) list"

definition eme_ns :: string where
  "eme_ns = ''eu.siacs.conversations.axolotl''"

text \<open>
  The values the two methods return: whatever \<^verbatim>\<open>msg.send()\<close> gave (lines 79 and
  106), or the literal \<^verbatim>\<open>None\<close> (line 137).
\<close>

datatype py_value = SendResult | PyNone

text \<open>How a call of \<^verbatim>\<open>encrypted_send\<close> ends: a \<^verbatim>\<open>return\<close> or an exception.\<close>

datatype py_result = Return py_value | Raise exn

text \<open>How one pass through the loop body ends.\<close>

datatype control = Continue | Exit py_result

record 'p loop_state =
  stanza_of :: stanza
  expect_problems :: problems
  world_of :: "'p world"

subsection \<open>Session primitives\<close>

definition make_message :: "string \<Rightarrow> string \<Rightarrow> stanza" where
  "make_message t ty =
     \<lparr>mto = t, mtype = ty, body = None, eme_namespace = None, eme_name = None, payload = []\<rparr>"

definition send :: "stanza \<Rightarrow> 'p world \<Rightarrow> py_value \<times> 'p world" where
  "send m w = (SendResult, w\<lparr>trace := trace w @ [Send m]\<rparr>)"

definition disconnect :: "'p world \<Rightarrow> 'p world" where
  "disconnect w = w\<lparr>trace := trace w @ [Disconnect]\<rparr>"

text \<open>
  \<^verbatim>\<open>msg['body'] = text\<close>. The library's setter of a text element stores the text,
  and removes the element when the text is empty: the stanza then has no body.
\<close>

definition set_body :: "string \<Rightarrow> stanza \<Rightarrow> stanza" where
  "set_body text m = m\<lparr>body := (if text = [] then None else Some text)\<rparr>"

subsection \<open>Coroutines\<close>

text \<open>
  \<^verbatim>\<open>plain_send\<close> is declared \<^verbatim>\<open>async def\<close>: calling it runs nothing and returns a
  coroutine object, the suspended body. The body runs when the coroutine is awaited;
  a coroutine that is dropped never runs.
\<close>

type_synonym 'p coroutine = "'p world \<Rightarrow> py_value \<times> 'p world"

definition plain_send :: "send_msg \<Rightarrow> string \<Rightarrow> 'p coroutine" where
  "plain_send self message = (\<lambda>w.
     let m = make_message (to self) ''chat'';
         m = set_body message m
     in send m w)"

definition await :: "'p coroutine \<Rightarrow> 'p world \<Rightarrow> py_value \<times> 'p world" where
  "await c w = c w"

text \<open>An expression statement whose value is a coroutine: the object is discarded.\<close>

definition never_awaited :: "'p coroutine \<Rightarrow> 'p world \<Rightarrow> 'p world" where
  "never_awaited c w = w"

subsection \<open>String formatting\<close>

fun digits :: "nat \<Rightarrow> string" where
  "digits n =
     (if n < 10 then [''0123456789'' ! n]
      else digits (n div 10) @ [''0123456789'' ! (n mod 10)])"

definition fmt_d :: "int \<Rightarrow> string" where
  "fmt_d i = (if i < 0 then CHR ''-'' # digits (nat (- i)) else digits (nat i))"

definition repr :: "exn \<Rightarrow> string" where
  "repr e = (case e of
       UndecidedException j d k \<Rightarrow> ''UndecidedException()''
     | EncryptionPrepareException es \<Rightarrow> ''EncryptionPrepareException()''
     | IqError r \<Rightarrow> r
     | IqTimeout r \<Rightarrow> r
     | OtherException r \<Rightarrow> r)"

definition missing_keys_text :: "device \<Rightarrow> string \<Rightarrow> string" where
  "missing_keys_text d j =
     ''Could not find keys for device '' @ [CHR 0x22] @ fmt_d d @ [CHR 0x22]
       @ '' of recipient '' @ [CHR 0x22] @ j @ [CHR 0x22] @ ''. Skipping.''"

definition fetch_error_text :: "exn \<Rightarrow> string" where
  "fetch_error_text e =
     ''An error occured while fetching information on a recipient.'' @ [CHR 0x0A] @ repr e"

definition encrypt_error_text :: "exn \<Rightarrow> string" where
  "encrypt_error_text e =
     ''An error occured while attempting to encrypt.'' @ [CHR 0x0A] @ repr e"

subsection \<open>The exclusion dict\<close>

text \<open>\<^verbatim>\<open>d.setdefault(k, v)\<close>: insert \<open>k\<close> with \<open>v\<close> when absent; the dict is unchanged otherwise.\<close>

fun setdefault :: "jid \<Rightarrow> device list \<Rightarrow> problems \<Rightarrow> problems" where
  "setdefault k v [] = [(k, v)]"
| "setdefault k v ((k', v') # rest) =
     (if k' = k then (k', v') # rest else (k', v') # setdefault k v rest)"

text \<open>
  \<^verbatim>\<open>device_list.append(x)\<close> where \<^verbatim>\<open>device_list\<close> is the list stored under \<open>k\<close>: the
  list inside the dict grows, since both names denote one object.
\<close>

fun append_at :: "jid \<Rightarrow> device \<Rightarrow> problems \<Rightarrow> problems" where
  "append_at k x [] = []"
| "append_at k x ((k', v') # rest) =
     (if k' = k then (k', v' @ [x]) # rest else (k', v') # append_at k x rest)"

subsection \<open>The handlers\<close>

text \<open>
  Lines 120 to 134, the loop over \<^verbatim>\<open>exn.errors\<close>. The call of \<^verbatim>\<open>plain_send\<close> on
  line 129 has no \<^verbatim>\<open>await\<close>.
\<close>

fun prepare_errors ::
  "send_msg \<Rightarrow> sub_error list \<Rightarrow> problems \<times> 'p world \<Rightarrow> problems \<times> 'p world" where
  "prepare_errors self [] (ex, w) = (ex, w)"
| "prepare_errors self (error # errors) (ex, w) =
     (case error of
        MissingBundleException bare_jid dev \<Rightarrow>
          let w = never_awaited (plain_send self (missing_keys_text dev bare_jid)) w;
              j = JID bare_jid;
              ex = setdefault j [] ex;
              ex = append_at j dev ex
          in prepare_errors self errors (ex, w)
      | OtherSubError _ \<Rightarrow> prepare_errors self errors (ex, w))"

text \<open>
  Lines 91 to 143: one pass through the body of \<^verbatim>\<open>while True\<close>, that is the
  \<^verbatim>\<open>try\<close>, the handler chosen by the exception, and the \<^verbatim>\<open>finally\<close> block, which
  runs on every way out of the \<^verbatim>\<open>try\<close> statement, also when the loop goes on.
\<close>

definition loop_body ::
  "'p xep_0384 \<Rightarrow> send_msg \<Rightarrow> 'p loop_state \<Rightarrow> control \<times> 'p loop_state" where
  "loop_body P self st =
     (let w = world_of st;
          recipients = [JID (to self)];
          (r, p) = encrypt_message P (omemo w) (msg self) recipients (expect_problems st);
          w = w\<lparr>omemo := p,
                trace := trace w @ [EncryptCall (msg self) recipients (expect_problems st)]\<rparr>
      in case r of
           Inr encrypt \<Rightarrow>
             let m = stanza_of st;
                 m = m\<lparr>payload := payload m @ [encrypt]\<rparr>;
                 (v, w) = send m w;
                 w = disconnect w
             in (Exit (Return v), st\<lparr>stanza_of := m, world_of := w\<rparr>)
         | Inl (UndecidedException bare_jid dev ik) \<Rightarrow>
             let w = w\<lparr>omemo := trust P (omemo w) bare_jid dev ik,
                       trace := trace w @ [TrustCall bare_jid dev ik]\<rparr>;
                 w = disconnect w
             in (Continue, st\<lparr>world_of := w\<rparr>)
         | Inl (EncryptionPrepareException errors) \<Rightarrow>
             let (ex, w) = prepare_errors self errors (expect_problems st, w);
                 w = disconnect w
             in (Continue, st\<lparr>expect_problems := ex, world_of := w\<rparr>)
         | Inl (IqError x) \<Rightarrow>
             let w = never_awaited (plain_send self (fetch_error_text (IqError x))) w;
                 w = disconnect w
             in (Exit (Return PyNone), st\<lparr>world_of := w\<rparr>)
         | Inl (IqTimeout x) \<Rightarrow>
             let w = never_awaited (plain_send self (fetch_error_text (IqTimeout x))) w;
                 w = disconnect w
             in (Exit (Return PyNone), st\<lparr>world_of := w\<rparr>)
         | Inl (OtherException x) \<Rightarrow>
             let (_, w) = await (plain_send self (encrypt_error_text (OtherException x))) w;
                 w = disconnect w
             in (Exit (Raise (OtherException x)), st\<lparr>world_of := w\<rparr>))"

subsection \<open>The loop\<close>

text \<open>
  \<^verbatim>\<open>while True\<close> has no bound: a run that never leaves the loop is the value \<open>None\<close>.
\<close>

partial_function (option) encrypted_send_loop ::
  "'p xep_0384 \<Rightarrow> send_msg \<Rightarrow> 'p loop_state \<Rightarrow> (py_result \<times> 'p world) option" where
  "encrypted_send_loop P self st =
     (case loop_body P self st of
        (Continue, st') \<Rightarrow> encrypted_send_loop P self st'
      | (Exit r, st') \<Rightarrow> Some (r, world_of st'))"

text \<open>
  Lines 84 to 88, then the loop. The table lookup on line 86 raises \<^verbatim>\<open>KeyError\<close> for
  a missing key, before the \<^verbatim>\<open>try\<close> statement is entered.
\<close>

definition encrypted_send ::
  "'p xep_0384 \<Rightarrow> send_msg \<Rightarrow> 'p world \<Rightarrow> (py_result \<times> 'p world) option" where
  "encrypted_send P self w =
     (let m = make_message (to self) ''chat'';
          m = m\<lparr>eme_namespace := Some eme_ns\<rparr>
      in case map_of (mechanisms self) eme_ns of
           None \<Rightarrow> Some (Raise (OtherException ''KeyError''), w)
         | Some name \<Rightarrow>
             let m = m\<lparr>eme_name := Some name\<rparr>
             in encrypted_send_loop P self
                  \<lparr>stanza_of = m, expect_problems = [], world_of = w\<rparr>)"

text \<open>
  The same loop cut after \<open>n\<close> passes: the way the \<open>n\<close>-th pass ended and the state
  it left, or \<open>Continue\<close> when the loop would go on.
\<close>

fun passes :: "nat \<Rightarrow> 'p xep_0384 \<Rightarrow> send_msg \<Rightarrow> 'p loop_state \<Rightarrow> control \<times> 'p loop_state" where
  "passes 0 P self st = (Continue, st)"
| "passes (Suc n) P self st =
     (case loop_body P self st of
        (Continue, st') \<Rightarrow> passes n P self st'
      | (Exit r, st') \<Rightarrow> (Exit r, st'))"

text \<open>\<^verbatim>\<open>SendMsg.__init__\<close>, lines 43 to 49, with the plugin table the object reads later.\<close>

definition SendMsg ::
  "string \<Rightarrow> string \<Rightarrow> string \<Rightarrow> string \<Rightarrow> (string \<times> string) list \<Rightarrow> send_msg" where
  "SendMsg jid password t message table = \<lparr>to = t, msg = message, mechanisms = table\<rparr>"

subsection \<open>Reading a trace\<close>

fun sent :: "event list \<Rightarrow> stanza list" where
  "sent [] = []"
| "sent (Send m # es) = m # sent es"
| "sent (e # es) = sent es"

fun disconnects :: "event list \<Rightarrow> nat" where
  "disconnects [] = 0"
| "disconnects (Disconnect # es) = Suc (disconnects es)"
| "disconnects (e # es) = disconnects es"

fun encrypt_requests :: "event list \<Rightarrow> (string \<times> jid list) list" where
  "encrypt_requests [] = []"
| "encrypt_requests (EncryptCall m rs ex # es) = (m, rs) # encrypt_requests es"
| "encrypt_requests (e # es) = encrypt_requests es"

text \<open>An advisory is a dispatched stanza that carries a body; the encrypted stanza has none.\<close>

definition advisories :: "event list \<Rightarrow> string list" where
  "advisories es = [t. m \<leftarrow> sent es, t \<leftarrow> (case body m of None \<Rightarrow> [] | Some t \<Rightarrow> [t])]"

text \<open>The \<^verbatim>\<open>{recipient, device}\<close> entries of the exclusion dict, and the ones a list of sub-errors reports.\<close>

definition entries :: "problems \<Rightarrow> (jid \<times> device) list" where
  "entries ex = concat (map (\<lambda>(j, ds). map (Pair j) ds) ex)"

fun reported :: "sub_error list \<Rightarrow> (jid \<times> device) list" where
  "reported [] = []"
| "reported (MissingBundleException b d # es) = (JID b, d) # reported es"
| "reported (OtherSubError x # es) = reported es"

subsection \<open>Two stand-ins for the plugin\<close>

text \<open>
  A plugin that replays a list of outcomes, one per call of \<^verbatim>\<open>encrypt_message\<close>, and
  ignores \<^verbatim>\<open>trust\<close>. With the list used up it raises an unclassified exception.
\<close>

definition scripted :: "(exn + envelope) list xep_0384" where
  "scripted =
     \<lparr>encrypt_message = (\<lambda>p m rs ex.
          case p of [] \<Rightarrow> (Inl (OtherException ''script exhausted''), [])
                  | r # rest \<Rightarrow> (r, rest)),
      trust = (\<lambda>p j d k. p)\<rparr>"

text \<open>
  Modelled from the spec: the healthy mock provider of its testable properties, which the
  repository does not contain. It holds the devices it knows, each with its owner, number,
  identity key and whether a trust decision was recorded. \<^verbatim>\<open>encrypt_message\<close> raises
  trust-undecided for the first device of a recipient without a decision and returns an
  envelope when there is none; \<^verbatim>\<open>trust\<close> records the decision for the device and key
  it is given.
\<close>

record known_device =
  owner :: string
  number :: device
  ik :: string
  decided :: bool

fun first_undecided :: "jid list \<Rightarrow> known_device list \<Rightarrow> known_device option" where
  "first_undecided rs [] = None"
| "first_undecided rs (x # xs) =
     (if JID (owner x) \<in> set rs \<and> \<not> decided x then Some x else first_undecided rs xs)"

definition record_trust :: "known_device list \<Rightarrow> string \<Rightarrow> device \<Rightarrow> string \<Rightarrow> known_device list" where
  "record_trust p j d k =
     map (\<lambda>x. if owner x = j \<and> number x = d \<and> ik x = k then x\<lparr>decided := True\<rparr> else x) p"

definition healthy_mock :: "known_device list xep_0384" where
  "healthy_mock =
     \<lparr>encrypt_message = (\<lambda>p m rs ex.
          case first_undecided rs p of
            Some x \<Rightarrow> (Inl (UndecidedException (owner x) (number x) (ik x)), p)
          | None \<Rightarrow> (Inr (Envelope m), p)),
      trust = record_trust\<rparr>"

definition undecided_count :: "known_device list \<Rightarrow> nat" where
  "undecided_count p = length (filter (\<lambda>x. \<not> decided x) p)"

text \<open>
  A plugin resolves recorded trust decisions when each decision recorded in answer to a
  trust-undecided signal lowers a count \<open>\<mu>\<close> of what is left to decide.
\<close>

definition resolves_trust :: "'p xep_0384 \<Rightarrow> ('p \<Rightarrow> nat) \<Rightarrow> bool" where
  "resolves_trust P \<mu> \<longleftrightarrow>
     (\<forall>p m rs ex j d k p'.
        encrypt_message P p m rs ex = (Inl (UndecidedException j d k), p')
          \<longrightarrow> \<mu> (trust P p' j d k) < \<mu> p)"

text \<open>What the next attempt of a loop state gets from the plugin.\<close>

definition next_outcome :: "'p xep_0384 \<Rightarrow> send_msg \<Rightarrow> 'p loop_state \<Rightarrow> exn + envelope" where
  "next_outcome P self st =
     fst (encrypt_message P (omemo (world_of st)) (msg self) [JID (to self)] (expect_problems st))"

fun is_undecided :: "exn + envelope \<Rightarrow> bool" where
  "is_undecided (Inl (UndecidedException j d k)) = True"
| "is_undecided r = False"

subsection \<open>Concrete inputs\<close>

text \<open>The stanza after lines 84 to 86, for a table that maps the namespace to \<open>name\<close>.\<close>

definition prepared :: "send_msg \<Rightarrow> string \<Rightarrow> stanza" where
  "prepared self name =
     \<lparr>mto = to self, mtype = ''chat'', body = None,
      eme_namespace = Some eme_ns, eme_name = Some name, payload = []\<rparr>"

text \<open>
  A sender object as the script's main block builds it, and a recipient with two devices:
  \<open>device_A\<close> has a recorded trust decision, \<open>device_B\<close> has none.
\<close>

definition alice :: send_msg where
  "alice = SendMsg ''sender@example.com'' ''YOUR_STRONG_PASS'' ''bob@example.org'' ''hello''
             [(eme_ns, ''OMEMO'')]"

definition device_A :: known_device where
  "device_A = \<lparr>owner = ''bob@example.org'', number = 1, ik = ''ikA'', decided = True\<rparr>"

definition device_B :: known_device where
  "device_B = \<lparr>owner = ''bob@example.org'', number = 2, ik = ''ikB'', decided = False\<rparr>"

text \<open>
  A plugin state that raises trust-undecided while a counter is positive and lowers the
  counter with every recorded decision, so it resolves them; with nothing left to decide
  it raises a prepare-failed signal whose only sub-error is not a missing bundle.
\<close>

definition stubborn :: "nat xep_0384" where
  "stubborn =
     \<lparr>encrypt_message = (\<lambda>p m rs ex.
          if 0 < p then (Inl (UndecidedException ''bob@example.org'' (int p) ''ik''), p)
          else (Inl (EncryptionPrepareException [OtherSubError ''NoEligibleDevices'']), p)),
      trust = (\<lambda>p j d k. p - 1)\<rparr>"

text \<open>
  What a run is, seen from a loop state whose next attempt gets an outcome other than
  trust-undecided. An envelope, a fetch error and an unclassified exception end the run in
  that pass, with the result and the trace of lines 105 to 106, 136 to 137 and 139 to 140,
  each followed by the \<^verbatim>\<open>finally\<close> block. After a prepare-failed signal the run is
  the run of the loop from the state that lines 120 to 134 and the \<^verbatim>\<open>finally\<close> block
  leave; whether that run ends is not said.
\<close>

definition ends_by ::
  "'p xep_0384 \<Rightarrow> send_msg \<Rightarrow> 'p loop_state \<Rightarrow> (py_result \<times> 'p world) option \<Rightarrow> bool" where
  "ends_by P self st run =
     (let w = world_of st;
          request = EncryptCall (msg self) [JID (to self)] (expect_problems st)
      in case encrypt_message P (omemo w) (msg self) [JID (to self)] (expect_problems st) of
           (Inr e, p) \<Rightarrow>
             run = Some (Return SendResult,
                         w\<lparr>omemo := p,
                           trace := trace w @
                             [request,
                              Send ((stanza_of st)\<lparr>payload := payload (stanza_of st) @ [e]\<rparr>),
                              Disconnect]\<rparr>)
         | (Inl (IqError x), p) \<Rightarrow>
             run = Some (Return PyNone, w\<lparr>omemo := p, trace := trace w @ [request, Disconnect]\<rparr>)
         | (Inl (IqTimeout x), p) \<Rightarrow>
             run = Some (Return PyNone, w\<lparr>omemo := p, trace := trace w @ [request, Disconnect]\<rparr>)
         | (Inl (OtherException x), p) \<Rightarrow>
             run = Some (Raise (OtherException x),
                         w\<lparr>omemo := p,
                           trace := trace w @
                             [request,
                              Send \<lparr>mto = to self, mtype = ''chat'',
                                    body = Some (encrypt_error_text (OtherException x)),
                                    eme_namespace = None, eme_name = None, payload = []\<rparr>,
                              Disconnect]\<rparr>)
         | (Inl (EncryptionPrepareException es), p) \<Rightarrow>
             run = encrypted_send_loop P self
                     (st\<lparr>expect_problems :=
                           fst (prepare_errors self es (expect_problems st, w)),
                         world_of := w\<lparr>omemo := p, trace := trace w @ [request, Disconnect]\<rparr>\<rparr>)
         | (Inl (UndecidedException j d k), p) \<Rightarrow> False)"

section \<open>Lemmas\<close>

subsection \<open>One pass, by the outcome of the encryption request\<close>

lemma prepare_errors_world: "snd (prepare_errors self errors (ex, w)) = w"
  by (induction errors arbitrary: ex) (auto simp: Let_def never_awaited_def split: sub_error.splits)

lemma prepare_errors_fst:
  "fst (prepare_errors self errors (ex, w)) = fst (prepare_errors self errors (ex, w'))"
  by (induction errors arbitrary: ex) (auto simp: Let_def never_awaited_def split: sub_error.splits)

lemma loop_body_Inr:
  assumes "encrypt_message P (omemo (world_of st)) (msg self) [JID (to self)] (expect_problems st) = (Inr e, p')"
  shows "loop_body P self st =
    (Exit (Return SendResult),
     st\<lparr>stanza_of := (stanza_of st)\<lparr>payload := payload (stanza_of st) @ [e]\<rparr>,
        world_of := (world_of st)\<lparr>omemo := p', trace := trace (world_of st) @
           [EncryptCall (msg self) [JID (to self)] (expect_problems st),
            Send ((stanza_of st)\<lparr>payload := payload (stanza_of st) @ [e]\<rparr>),
            Disconnect]\<rparr>\<rparr>)"
  using assms by (simp add: Let_def loop_body_def send_def disconnect_def)

lemma loop_body_Undecided:
  assumes "encrypt_message P (omemo (world_of st)) (msg self) [JID (to self)] (expect_problems st)
             = (Inl (UndecidedException j d k), p')"
  shows "loop_body P self st =
    (Continue,
     st\<lparr>world_of := (world_of st)\<lparr>omemo := trust P p' j d k, trace := trace (world_of st) @
           [EncryptCall (msg self) [JID (to self)] (expect_problems st),
            TrustCall j d k, Disconnect]\<rparr>\<rparr>)"
  using assms by (simp add: Let_def loop_body_def disconnect_def)

lemma loop_body_Prepare:
  assumes "encrypt_message P (omemo (world_of st)) (msg self) [JID (to self)] (expect_problems st)
             = (Inl (EncryptionPrepareException errors), p')"
  shows "loop_body P self st =
    (Continue,
     st\<lparr>expect_problems := fst (prepare_errors self errors (expect_problems st, world_of st)),
        world_of := (world_of st)\<lparr>omemo := p', trace := trace (world_of st) @
           [EncryptCall (msg self) [JID (to self)] (expect_problems st), Disconnect]\<rparr>\<rparr>)"
proof -
  let ?w = "(world_of st)\<lparr>omemo := p', trace := trace (world_of st) @
           [EncryptCall (msg self) [JID (to self)] (expect_problems st)]\<rparr>"
  have "prepare_errors self errors (expect_problems st, ?w)
          = (fst (prepare_errors self errors (expect_problems st, world_of st)), ?w)"
    by (rule prod_eqI) (simp_all add: prepare_errors_world prepare_errors_fst)
  with assms show ?thesis
    by (simp add: Let_def loop_body_def disconnect_def)
qed

lemma loop_body_IqError:
  assumes "encrypt_message P (omemo (world_of st)) (msg self) [JID (to self)] (expect_problems st)
             = (Inl (IqError x), p')"
  shows "loop_body P self st =
    (Exit (Return PyNone),
     st\<lparr>world_of := (world_of st)\<lparr>omemo := p', trace := trace (world_of st) @
           [EncryptCall (msg self) [JID (to self)] (expect_problems st), Disconnect]\<rparr>\<rparr>)"
  using assms by (simp add: Let_def loop_body_def disconnect_def never_awaited_def)

lemma loop_body_IqTimeout:
  assumes "encrypt_message P (omemo (world_of st)) (msg self) [JID (to self)] (expect_problems st)
             = (Inl (IqTimeout x), p')"
  shows "loop_body P self st =
    (Exit (Return PyNone),
     st\<lparr>world_of := (world_of st)\<lparr>omemo := p', trace := trace (world_of st) @
           [EncryptCall (msg self) [JID (to self)] (expect_problems st), Disconnect]\<rparr>\<rparr>)"
  using assms by (simp add: Let_def loop_body_def disconnect_def never_awaited_def)

lemma encrypt_error_text_nonempty: "encrypt_error_text e \<noteq> []"
  by (simp add: encrypt_error_text_def)

lemma loop_body_Other:
  assumes "encrypt_message P (omemo (world_of st)) (msg self) [JID (to self)] (expect_problems st)
             = (Inl (OtherException x), p')"
  shows "loop_body P self st =
    (Exit (Raise (OtherException x)),
     st\<lparr>world_of := (world_of st)\<lparr>omemo := p', trace := trace (world_of st) @
           [EncryptCall (msg self) [JID (to self)] (expect_problems st),
            Send \<lparr>mto = to self, mtype = ''chat'',
                  body = Some (encrypt_error_text (OtherException x)),
                  eme_namespace = None, eme_name = None, payload = []\<rparr>,
            Disconnect]\<rparr>\<rparr>)"
  using assms
  by (simp add: Let_def loop_body_def disconnect_def await_def plain_send_def send_def
        make_message_def set_body_def encrypt_error_text_nonempty)

lemma loop_continue:
  "loop_body P self st = (Continue, st') \<Longrightarrow>
     encrypted_send_loop P self st = encrypted_send_loop P self st'"
  by (subst encrypted_send_loop.simps) simp

lemma loop_exit:
  "loop_body P self st = (Exit r, st') \<Longrightarrow>
     encrypted_send_loop P self st = Some (r, world_of st')"
  by (subst encrypted_send_loop.simps) simp

lemma passes_loop:
  "passes n P self st = (Exit r, st') \<Longrightarrow> encrypted_send_loop P self st = Some (r, world_of st')"
proof (induction n arbitrary: st)
  case 0 then show ?case by simp
next
  case (Suc n)
  obtain c st1 where b: "loop_body P self st = (c, st1)" by (cases "loop_body P self st")
  show ?case
  proof (cases c)
    case Continue
    with b Suc show ?thesis by (simp add: loop_continue)
  next
    case (Exit r')
    with b Suc show ?thesis by (simp add: loop_exit)
  qed
qed

lemma loop_passes_aux:
  assumes "encrypted_send_loop P self st = Some y"
  shows "\<exists>n st'. passes n P self st = (Exit (fst y), st') \<and> world_of st' = snd y"
proof -
  let ?Q = "\<lambda>x y. \<exists>n st'. passes n (fst (fst x)) (snd (fst x)) (snd x) = (Exit (fst y), st')
                \<and> world_of st' = snd y"
  have "?Q ((P, self), st) y"
  proof (rule encrypted_send_loop.raw_induct[where Pa = ?Q, OF _ assms])
    fix f :: "'a xep_0384 \<Rightarrow> send_msg \<Rightarrow> 'a loop_state \<Rightarrow> (py_result \<times> 'a world) option"
    fix P self st y
    assume IH: "\<And>P self st y. f P self st = Some y \<Longrightarrow> ?Q ((P, self), st) y"
    assume step: "(case loop_body P self st of
                     (Continue, st') \<Rightarrow> f P self st'
                   | (Exit r, st') \<Rightarrow> Some (r, world_of st')) = Some y"
    obtain c st1 where b: "loop_body P self st = (c, st1)" by (cases "loop_body P self st")
    show "?Q ((P, self), st) y"
    proof (cases c)
      case Continue
      with b step have "f P self st1 = Some y" by simp
      from IH[OF this] obtain n st' where
        "passes n P self st1 = (Exit (fst y), st')" "world_of st' = snd y" by auto
      with b Continue have "passes (Suc n) P self st = (Exit (fst y), st') \<and> world_of st' = snd y"
        by simp
      then show ?thesis unfolding fst_conv snd_conv by blast
    next
      case (Exit r)
      with b step have "y = (r, world_of st1)" by simp
      with b Exit have "passes (Suc 0) P self st = (Exit (fst y), st1) \<and> world_of st1 = snd y"
        by simp
      then show ?thesis unfolding fst_conv snd_conv by blast
    qed
  qed
  then show ?thesis by simp
qed

subsection \<open>Traces\<close>

lemma sent_append: "sent (xs @ ys) = sent xs @ sent ys"
  by (induction xs rule: sent.induct) simp_all

lemma disconnects_append: "disconnects (xs @ ys) = disconnects xs + disconnects ys"
  by (induction xs rule: disconnects.induct) simp_all

lemma encrypt_requests_append:
  "encrypt_requests (xs @ ys) = encrypt_requests xs @ encrypt_requests ys"
  by (induction xs rule: encrypt_requests.induct) simp_all

subsection \<open>Whole runs\<close>

lemma encrypted_send_unfold:
  "map_of (mechanisms self) eme_ns = Some name \<Longrightarrow>
   encrypted_send P self w =
     encrypted_send_loop P self \<lparr>stanza_of = prepared self name, expect_problems = [], world_of = w\<rparr>"
  by (simp add: encrypted_send_def prepared_def make_message_def)

lemma alice_simps:
  "to alice = ''bob@example.org''" "msg alice = ''hello''"
  "map_of (mechanisms alice) eme_ns = Some ''OMEMO''"
  by (simp_all add: alice_def SendMsg_def)

lemma scripted_simps:
  "encrypt_message scripted [] m rs ex = (Inl (OtherException ''script exhausted''), [])"
  "encrypt_message scripted (r # rest) m rs ex = (r, rest)"
  "trust scripted p j d k = p"
  by (simp_all add: scripted_def)

lemma scenario_run:
  "encrypted_send healthy_mock alice \<lparr>omemo = [device_A, device_B], trace = []\<rparr> =
     Some (Return SendResult,
       \<lparr>omemo = [device_A, device_B\<lparr>decided := True\<rparr>],
        trace = [EncryptCall ''hello'' [JID ''bob@example.org''] [],
                 TrustCall ''bob@example.org'' 2 ''ikB'',
                 Disconnect,
                 EncryptCall ''hello'' [JID ''bob@example.org''] [],
                 Send ((prepared alice ''OMEMO'')\<lparr>payload := [Envelope ''hello'']\<rparr>),
                 Disconnect]\<rparr>)"
proof -
  let ?st = "\<lparr>stanza_of = prepared alice ''OMEMO'', expect_problems = [],
              world_of = \<lparr>omemo = [device_A, device_B], trace = []\<rparr>\<rparr>"
  have "passes (Suc (Suc 0)) healthy_mock alice ?st =
     (Exit (Return SendResult),
      ?st\<lparr>stanza_of := (prepared alice ''OMEMO'')\<lparr>payload := [Envelope ''hello'']\<rparr>,
          world_of := \<lparr>omemo = [device_A, device_B\<lparr>decided := True\<rparr>],
        trace = [EncryptCall ''hello'' [JID ''bob@example.org''] [],
                 TrustCall ''bob@example.org'' 2 ''ikB'',
                 Disconnect,
                 EncryptCall ''hello'' [JID ''bob@example.org''] [],
                 Send ((prepared alice ''OMEMO'')\<lparr>payload := [Envelope ''hello'']\<rparr>),
                 Disconnect]\<rparr>\<rparr>)"
    by (simp add: loop_body_def healthy_mock_def alice_simps device_A_def device_B_def
          record_trust_def send_def disconnect_def prepared_def Let_def)
  from passes_loop[OF this]
  show ?thesis by (simp add: encrypted_send_unfold[OF alice_simps(3)])
qed

subsection \<open>What every pass requests\<close>

lemma loop_body_trace_head:
  "\<exists>evs. trace (world_of (snd (loop_body P self st))) =
     trace (world_of st) @ EncryptCall (msg self) [JID (to self)] (expect_problems st) # evs"
proof -
  obtain r p' where e: "encrypt_message P (omemo (world_of st)) (msg self) [JID (to self)]
                          (expect_problems st) = (r, p')"
    by (cases "encrypt_message P (omemo (world_of st)) (msg self) [JID (to self)]
                 (expect_problems st)")
  show ?thesis
  proof (cases r)
    case (Inr env)
    with e show ?thesis by (simp add: loop_body_Inr)
  next
    case (Inl x)
    with e show ?thesis
      by (cases x)
         (simp_all add: loop_body_Undecided loop_body_Prepare loop_body_IqError
            loop_body_IqTimeout loop_body_Other)
  qed
qed

lemma loop_body_requests:
  "encrypt_requests (trace (world_of (snd (loop_body P self st)))) =
     encrypt_requests (trace (world_of st)) @ [(msg self, [JID (to self)])]"
proof -
  obtain r p' where e: "encrypt_message P (omemo (world_of st)) (msg self) [JID (to self)]
                          (expect_problems st) = (r, p')"
    by (cases "encrypt_message P (omemo (world_of st)) (msg self) [JID (to self)]
                 (expect_problems st)")
  show ?thesis
  proof (cases r)
    case (Inr env)
    with e show ?thesis by (simp add: loop_body_Inr encrypt_requests_append)
  next
    case (Inl x)
    with e show ?thesis
      by (cases x)
         (simp_all add: loop_body_Undecided loop_body_Prepare loop_body_IqError
            loop_body_IqTimeout loop_body_Other encrypt_requests_append)
  qed
qed

lemma passes_requests:
  "\<exists>k\<le>n. encrypt_requests (trace (world_of (snd (passes n P self st)))) =
     encrypt_requests (trace (world_of st)) @ replicate k (msg self, [JID (to self)])"
proof (induction n arbitrary: st)
  case 0
  show ?case by simp
next
  case (Suc n)
  obtain c st1 where b: "loop_body P self st = (c, st1)" by (cases "loop_body P self st")
  from loop_body_requests[of P self st] b
  have r1: "encrypt_requests (trace (world_of st1)) =
              encrypt_requests (trace (world_of st)) @ [(msg self, [JID (to self)])]"
    by simp
  show ?case
  proof (cases c)
    case Continue
    from Suc[of st1] obtain k where k: "k \<le> n"
      "encrypt_requests (trace (world_of (snd (passes n P self st1)))) =
         encrypt_requests (trace (world_of st1)) @ replicate k (msg self, [JID (to self)])"
      by blast
    with b Continue r1
    have "encrypt_requests (trace (world_of (snd (passes (Suc n) P self st)))) =
            encrypt_requests (trace (world_of st)) @ replicate (Suc k) (msg self, [JID (to self)])"
      by simp
    with k(1) show ?thesis by (metis Suc_le_mono)
  next
    case (Exit r)
    with b r1
    have "encrypt_requests (trace (world_of (snd (passes (Suc n) P self st)))) =
            encrypt_requests (trace (world_of st)) @ replicate (Suc 0) (msg self, [JID (to self)])"
      by simp
    then show ?thesis by (metis Suc_le_mono le0)
  qed
qed

subsection \<open>Outcomes other than trust-undecided\<close>

lemma prepare_errors_none_reported:
  "reported errors = [] \<Longrightarrow> fst (prepare_errors self errors (ex, w)) = ex"
  by (induction errors rule: reported.induct) simp_all

lemma is_undecided_iff: "is_undecided r \<longleftrightarrow> (\<exists>j d k. r = Inl (UndecidedException j d k))"
  by (cases r rule: is_undecided.cases) simp_all

lemma ends_by_now:
  assumes n: "\<not> is_undecided (next_outcome P self st)"
  shows "ends_by P self st (encrypted_send_loop P self st)"
proof -
  obtain r p' where e: "encrypt_message P (omemo (world_of st)) (msg self) [JID (to self)]
                          (expect_problems st) = (r, p')"
    by (cases "encrypt_message P (omemo (world_of st)) (msg self) [JID (to self)]
                 (expect_problems st)")
  show ?thesis
  proof (cases r)
    case (Inr env)
    with e loop_exit[OF loop_body_Inr, of P st self env p'] show ?thesis
      by (simp add: ends_by_def)
  next
    case (Inl x)
    show ?thesis
    proof (cases x)
      case (UndecidedException j d k)
      with Inl e n show ?thesis by (simp add: next_outcome_def)
    next
      case (EncryptionPrepareException es)
      with Inl e loop_continue[OF loop_body_Prepare, of P st self es p'] show ?thesis
        by (simp add: ends_by_def)
    next
      case (IqError y)
      with Inl e loop_exit[OF loop_body_IqError, of P st self y p'] show ?thesis
        by (simp add: ends_by_def)
    next
      case (IqTimeout y)
      with Inl e loop_exit[OF loop_body_IqTimeout, of P st self y p'] show ?thesis
        by (simp add: ends_by_def)
    next
      case (OtherException y)
      with Inl e loop_exit[OF loop_body_Other, of P st self y p'] show ?thesis
        by (simp add: ends_by_def)
    qed
  qed
qed

subsection \<open>The mock plugin resolves trust decisions\<close>

lemma first_undecided_mem:
  "first_undecided rs p = Some x \<Longrightarrow> x \<in> set p \<and> \<not> decided x"
  by (induction p) (auto split: if_splits)

lemma record_trust_le: "undecided_count (record_trust p j d k) \<le> undecided_count p"
  by (induction p) (auto simp: undecided_count_def record_trust_def)

lemma record_trust_less:
  "x \<in> set p \<Longrightarrow> \<not> decided x \<Longrightarrow>
     undecided_count (record_trust p (owner x) (number x) (ik x)) < undecided_count p"
proof (induction p)
  case Nil
  then show ?case by simp
next
  case (Cons y ys)
  show ?case
  proof (cases "x = y")
    case True
    with Cons.prems record_trust_le[of ys "owner x" "number x" "ik x"]
    show ?thesis by (simp add: undecided_count_def record_trust_def)
  next
    case False
    with Cons have "undecided_count (record_trust ys (owner x) (number x) (ik x))
                      < undecided_count ys"
      by simp
    then show ?thesis by (simp add: undecided_count_def record_trust_def)
  qed
qed

lemma healthy_mock_resolves: "resolves_trust healthy_mock undecided_count"
  unfolding resolves_trust_def
proof (intro allI impI)
  fix p m rs ex j d k p'
  assume a: "encrypt_message healthy_mock p m rs ex = (Inl (UndecidedException j d k), p')"
  then obtain x where x: "first_undecided rs p = Some x"
    "j = owner x" "d = number x" "k = ik x" "p' = p"
    by (auto simp: healthy_mock_def split: option.splits)
  from first_undecided_mem[OF x(1)] record_trust_less[of x p] x
  show "undecided_count (trust healthy_mock p' j d k) < undecided_count p"
    by (simp add: healthy_mock_def)
qed

subsection \<open>The exclusion dict under prepare-failed signals\<close>

lemma entries_simps:
  "entries [] = []"
  "entries ((k, v) # rest) = map (Pair k) v @ entries rest"
  by (simp_all add: entries_def)

lemma entries_setdefault: "entries (setdefault j [] ex) = entries ex"
  by (induction ex) (auto simp: entries_simps)

lemma setdefault_has_key: "j \<in> fst ` set (setdefault j v ex)"
  by (induction ex) force+

lemma reported_append: "reported (xs @ ys) = reported xs @ reported ys"
  by (induction xs rule: reported.induct) simp_all

lemma entries_append_at:
  "j \<in> fst ` set ex \<Longrightarrow>
     mset (entries (append_at j d ex)) = add_mset (j, d) (mset (entries ex))"
proof (induction ex)
  case Nil
  then show ?case by simp
next
  case (Cons kv ex)
  obtain k v where kv: "kv = (k, v)" by (cases kv)
  show ?case
  proof (cases "k = j")
    case True
    with kv show ?thesis by (simp add: entries_simps)
  next
    case False
    with Cons.prems kv have "j \<in> fst ` set ex" by auto
    from Cons.IH[OF this] False kv show ?thesis by (simp add: entries_simps)
  qed
qed

lemma prepare_errors_entries:
  "mset (entries (fst (prepare_errors self errors (ex, w)))) =
     mset (entries ex) + mset (reported errors)"
proof (induction errors arbitrary: ex rule: reported.induct)
  case 1
  show ?case by simp
next
  case (2 b d es)
  have "mset (entries (append_at (JID b) d (setdefault (JID b) [] ex))) =
          add_mset (JID b, d) (mset (entries ex))"
    by (simp add: entries_append_at setdefault_has_key entries_setdefault)
  with 2[of "append_at (JID b) d (setdefault (JID b) [] ex)"] show ?case
    by (simp add: Let_def never_awaited_def)
next
  case (3 x es)
  then show ?case by simp
qed

lemma passes_prepare_script:
  "omemo (world_of st) = map (\<lambda>es. Inl (EncryptionPrepareException es)) errss @ rest \<Longrightarrow>
     fst (passes (length errss) scripted self st) = Continue
   \<and> omemo (world_of (snd (passes (length errss) scripted self st))) = rest
   \<and> mset (entries (expect_problems (snd (passes (length errss) scripted self st)))) =
       mset (entries (expect_problems st)) + mset (reported (concat errss))"
proof (induction errss arbitrary: st)
  case Nil
  then show ?case by simp
next
  case (Cons es errss)
  let ?rest = "map (\<lambda>es. Inl (EncryptionPrepareException es)) errss @ rest"
  from Cons.prems
  have e: "encrypt_message scripted (omemo (world_of st)) (msg self) [JID (to self)]
             (expect_problems st) = (Inl (EncryptionPrepareException es), ?rest)"
    by (simp add: scripted_simps)
  let ?st1 = "st\<lparr>expect_problems := fst (prepare_errors self es (expect_problems st, world_of st)),
        world_of := (world_of st)\<lparr>omemo := ?rest, trace := trace (world_of st) @
           [EncryptCall (msg self) [JID (to self)] (expect_problems st), Disconnect]\<rparr>\<rparr>"
  have b: "loop_body scripted self st = (Continue, ?st1)"
    by (rule loop_body_Prepare[OF e])
  have "omemo (world_of ?st1) = ?rest" by simp
  from Cons.IH[OF this] b show ?case
    by (simp add: prepare_errors_entries reported_append)
qed

subsection \<open>A plugin that resolves trust decisions and never lets the loop end\<close>

lemma stubborn_resolves: "resolves_trust stubborn id"
  by (auto simp: resolves_trust_def stubborn_def split: if_splits)

lemma stubborn_body: "fst (loop_body stubborn self st) = Continue"
proof (cases "0 < omemo (world_of st)")
  case True
  then have "encrypt_message stubborn (omemo (world_of st)) (msg self) [JID (to self)]
               (expect_problems st)
             = (Inl (UndecidedException ''bob@example.org'' (int (omemo (world_of st))) ''ik''),
                omemo (world_of st))"
    by (simp add: stubborn_def)
  from loop_body_Undecided[OF this] show ?thesis by simp
next
  case False
  then have "encrypt_message stubborn (omemo (world_of st)) (msg self) [JID (to self)]
               (expect_problems st)
             = (Inl (EncryptionPrepareException [OtherSubError ''NoEligibleDevices'']),
                omemo (world_of st))"
    by (simp add: stubborn_def)
  from loop_body_Prepare[OF this] show ?thesis by simp
qed

lemma stubborn_passes: "fst (passes n stubborn self st) = Continue"
proof (induction n arbitrary: st)
  case 0
  show ?case by simp
next
  case (Suc n)
  obtain c st1 where b: "loop_body stubborn self st = (c, st1)"
    by (cases "loop_body stubborn self st")
  with stubborn_body[of self st] have "c = Continue" by simp
  with b Suc[of st1] show ?case by simp
qed

lemma stubborn_loop: "encrypted_send_loop stubborn self st = None"
proof (cases "encrypted_send_loop stubborn self st")
  case None
  then show ?thesis .
next
  case (Some y)
  from loop_passes_aux[OF this] obtain n st' where
    "passes n stubborn self st = (Exit (fst y), st')" by blast
  with stubborn_passes[of n self st] show ?thesis by simp
qed

section \<open>The claims\<close>

text \<open>
  C1. The claim asks for one \<^verbatim>\<open>disconnect\<close> per run. The \<^verbatim>\<open>finally\<close> block
  belongs to the \<^verbatim>\<open>try\<close> statement inside the loop, so it runs once per pass: for a
  recipient whose second device is undecided, the run records the trust decision,
  disconnects, requests encryption again, sends, and disconnects a second time.
\<close>

theorem disconnect_on_every_pass:
  "encrypted_send healthy_mock alice \<lparr>omemo = [device_A, device_B], trace = []\<rparr> =
     Some (Return SendResult,
       \<lparr>omemo = [device_A, device_B\<lparr>decided := True\<rparr>],
        trace = [EncryptCall ''hello'' [JID ''bob@example.org''] [],
                 TrustCall ''bob@example.org'' 2 ''ikB'',
                 Disconnect,
                 EncryptCall ''hello'' [JID ''bob@example.org''] [],
                 Send ((prepared alice ''OMEMO'')\<lparr>payload := [Envelope ''hello'']\<rparr>),
                 Disconnect]\<rparr>)
   \<and> disconnects [EncryptCall ''hello'' [JID ''bob@example.org''] [],
                 TrustCall ''bob@example.org'' 2 ''ikB'',
                 Disconnect,
                 EncryptCall ''hello'' [JID ''bob@example.org''] [],
                 Send ((prepared alice ''OMEMO'')\<lparr>payload := [Envelope ''hello'']\<rparr>),
                 Disconnect] = 2"
  by (simp add: scenario_run)

text \<open>
  C2. When the first encryption attempt succeeds, the run dispatches exactly one stanza,
  the prepared one with the returned envelope appended, then calls \<^verbatim>\<open>disconnect\<close>
  exactly once, and returns.
\<close>

theorem first_attempt_success:
  assumes table: "map_of (mechanisms self) eme_ns = Some name"
    and ok: "encrypt_message P (omemo w) (msg self) [JID (to self)] [] = (Inr encrypt, p')"
  shows "encrypted_send P self w =
           Some (Return SendResult,
                 w\<lparr>omemo := p',
                   trace := trace w @
                     [EncryptCall (msg self) [JID (to self)] [],
                      Send ((prepared self name)\<lparr>payload := [encrypt]\<rparr>),
                      Disconnect]\<rparr>)
         \<and> sent (trace w @
                     [EncryptCall (msg self) [JID (to self)] [],
                      Send ((prepared self name)\<lparr>payload := [encrypt]\<rparr>),
                      Disconnect])
             = sent (trace w) @ [(prepared self name)\<lparr>payload := [encrypt]\<rparr>]
         \<and> disconnects (trace w @
                     [EncryptCall (msg self) [JID (to self)] [],
                      Send ((prepared self name)\<lparr>payload := [encrypt]\<rparr>),
                      Disconnect])
             = Suc (disconnects (trace w))"
proof -
  let ?st = "\<lparr>stanza_of = prepared self name, expect_problems = [], world_of = w\<rparr>"
  from ok have "encrypt_message P (omemo (world_of ?st)) (msg self) [JID (to self)]
                  (expect_problems ?st) = (Inr encrypt, p')"
    by simp
  from loop_exit[OF loop_body_Inr[OF this]]
  show ?thesis
    by (simp add: encrypted_send_unfold[OF table] prepared_def sent_append disconnects_append)
qed

theorem first_attempt_success_witness:
  "map_of (mechanisms alice) eme_ns = Some ''OMEMO''
   \<and> encrypt_message healthy_mock [device_A] (msg alice) [JID (to alice)] []
         = (Inr (Envelope ''hello''), [device_A])
   \<and> encrypted_send healthy_mock alice \<lparr>omemo = [device_A], trace = []\<rparr> =
         Some (Return SendResult,
               \<lparr>omemo = [device_A],
                trace = [EncryptCall ''hello'' [JID ''bob@example.org''] [],
                         Send ((prepared alice ''OMEMO'')\<lparr>payload := [Envelope ''hello'']\<rparr>),
                         Disconnect]\<rparr>)"
proof -
  have t: "map_of (mechanisms alice) eme_ns = Some ''OMEMO''"
    by (simp add: alice_simps)
  have e: "encrypt_message healthy_mock (omemo \<lparr>omemo = [device_A], trace = []\<rparr>)
             (msg alice) [JID (to alice)] [] = (Inr (Envelope ''hello''), [device_A])"
    by (simp add: healthy_mock_def device_A_def alice_simps)
  from first_attempt_success[OF t e] t e show ?thesis
    by (simp add: alice_simps)
qed

text \<open>
  C3. The claim asks for one advisory on a fetch error. On line 136 the coroutine made by
  \<^verbatim>\<open>plain_send\<close> is not awaited: a timeout on the first attempt ends the run with
  one \<^verbatim>\<open>disconnect\<close>, the value \<^verbatim>\<open>None\<close>, and nothing dispatched at all.
\<close>

theorem fetch_error_sends_no_advisory:
  "encrypted_send scripted alice \<lparr>omemo = [Inl (IqTimeout ''IqTimeout()'')], trace = []\<rparr> =
     Some (Return PyNone,
       \<lparr>omemo = [], trace = [EncryptCall ''hello'' [JID ''bob@example.org''] [], Disconnect]\<rparr>)
   \<and> sent [EncryptCall ''hello'' [JID ''bob@example.org''] [], Disconnect] = []"
proof -
  let ?st = "\<lparr>stanza_of = prepared alice ''OMEMO'', expect_problems = [],
              world_of = \<lparr>omemo = [Inl (IqTimeout ''IqTimeout()'')], trace = []\<rparr>\<rparr>"
  have "passes (Suc 0) scripted alice ?st =
     (Exit (Return PyNone),
      ?st\<lparr>world_of := \<lparr>omemo = [],
             trace = [EncryptCall ''hello'' [JID ''bob@example.org''] [], Disconnect]\<rparr>\<rparr>)"
    by (simp add: loop_body_def scripted_simps alice_simps never_awaited_def disconnect_def Let_def)
  from passes_loop[OF this]
  show ?thesis by (simp add: encrypted_send_unfold[OF alice_simps(3)])
qed

text \<open>
  C4, as amended. Fed any sequence of prepare-failed signals, the loop goes on after each
  of them, and the exclusion dict then holds exactly one entry per reported missing-bundle
  sub-error, counted with multiplicity; it is free of duplicates when no recipient and
  device pair was reported twice.
\<close>

theorem exclusion_one_entry_per_report:
  "fst (passes (length errss) scripted self
          \<lparr>stanza_of = m, expect_problems = [],
           world_of = \<lparr>omemo = map (\<lambda>es. Inl (EncryptionPrepareException es)) errss @ rest,
                       trace = tr\<rparr>\<rparr>) = Continue
   \<and> mset (entries (expect_problems (snd (passes (length errss) scripted self
          \<lparr>stanza_of = m, expect_problems = [],
           world_of = \<lparr>omemo = map (\<lambda>es. Inl (EncryptionPrepareException es)) errss @ rest,
                       trace = tr\<rparr>\<rparr>)))) = mset (reported (concat errss))
   \<and> (distinct (reported (concat errss)) \<longrightarrow>
        distinct (entries (expect_problems (snd (passes (length errss) scripted self
          \<lparr>stanza_of = m, expect_problems = [],
           world_of = \<lparr>omemo = map (\<lambda>es. Inl (EncryptionPrepareException es)) errss @ rest,
                       trace = tr\<rparr>\<rparr>)))))"
proof -
  let ?st = "\<lparr>stanza_of = m, expect_problems = [],
           world_of = \<lparr>omemo = map (\<lambda>es. Inl (EncryptionPrepareException es)) errss @ rest,
                       trace = tr\<rparr>\<rparr>"
  have "omemo (world_of ?st) = map (\<lambda>es. Inl (EncryptionPrepareException es)) errss @ rest"
    by simp
  from passes_prepare_script[OF this, of self]
  have c: "fst (passes (length errss) scripted self ?st) = Continue"
    and m: "mset (entries (expect_problems (snd (passes (length errss) scripted self ?st)))) =
              mset (reported (concat errss))"
    by (simp_all add: entries_simps)
  from mset_eq_imp_distinct_iff[OF m] c m show ?thesis by simp
qed

theorem exclusion_one_entry_per_report_witness:
  "distinct (reported (concat
      [[MissingBundleException ''bob@example.org'' 2],
       [OtherSubError ''NoEligibleDevices'', MissingBundleException ''bob@example.org'' 3]]))
   \<and> distinct (entries (expect_problems (snd (passes (length
      [[MissingBundleException ''bob@example.org'' 2],
       [OtherSubError ''NoEligibleDevices'', MissingBundleException ''bob@example.org'' 3]])
        scripted alice
          \<lparr>stanza_of = prepared alice ''OMEMO'', expect_problems = [],
           world_of = \<lparr>omemo = map (\<lambda>es. Inl (EncryptionPrepareException es))
      [[MissingBundleException ''bob@example.org'' 2],
       [OtherSubError ''NoEligibleDevices'', MissingBundleException ''bob@example.org'' 3]]
                @ [Inr (Envelope ''c'')],
                       trace = []\<rparr>\<rparr>))))
   \<and> expect_problems (snd (passes (Suc (Suc 0)) scripted alice
          \<lparr>stanza_of = prepared alice ''OMEMO'', expect_problems = [],
           world_of = \<lparr>omemo =
              [Inl (EncryptionPrepareException [MissingBundleException ''bob@example.org'' 2]),
               Inl (EncryptionPrepareException
                      [OtherSubError ''NoEligibleDevices'',
                       MissingBundleException ''bob@example.org'' 3]),
               Inr (Envelope ''c'')],
                       trace = []\<rparr>\<rparr>))
       = [(JID ''bob@example.org'', [2, 3])]"
proof -
  have d: "distinct (reported (concat
      [[MissingBundleException ''bob@example.org'' 2],
       [OtherSubError ''NoEligibleDevices'', MissingBundleException ''bob@example.org'' 3]]))"
    by simp
  have v: "expect_problems (snd (passes (Suc (Suc 0)) scripted alice
          \<lparr>stanza_of = prepared alice ''OMEMO'', expect_problems = [],
           world_of = \<lparr>omemo =
              [Inl (EncryptionPrepareException [MissingBundleException ''bob@example.org'' 2]),
               Inl (EncryptionPrepareException
                      [OtherSubError ''NoEligibleDevices'',
                       MissingBundleException ''bob@example.org'' 3]),
               Inr (Envelope ''c'')],
                       trace = []\<rparr>\<rparr>))
       = [(JID ''bob@example.org'', [2, 3])]"
    by (simp add: loop_body_def scripted_simps alice_simps never_awaited_def disconnect_def
          Let_def)
  from exclusion_one_entry_per_report[where errss =
      "[[MissingBundleException ''bob@example.org'' 2],
       [OtherSubError ''NoEligibleDevices'', MissingBundleException ''bob@example.org'' 3]]"
      and self = alice and m = "prepared alice ''OMEMO''" and rest = "[Inr (Envelope ''c'')]"
      and tr = "[]"] d
  have "distinct (entries (expect_problems (snd (passes (length
      [[MissingBundleException ''bob@example.org'' 2],
       [OtherSubError ''NoEligibleDevices'', MissingBundleException ''bob@example.org'' 3]])
        scripted alice
          \<lparr>stanza_of = prepared alice ''OMEMO'', expect_problems = [],
           world_of = \<lparr>omemo = map (\<lambda>es. Inl (EncryptionPrepareException es))
      [[MissingBundleException ''bob@example.org'' 2],
       [OtherSubError ''NoEligibleDevices'', MissingBundleException ''bob@example.org'' 3]]
                @ [Inr (Envelope ''c'')],
                       trace = []\<rparr>\<rparr>))))"
    by blast
  with d v show ?thesis by blast
qed

text \<open>
  The claim as first stated also covers a device reported missing on two attempts. Line 134
  appends without looking at the list: two reports of device 2 leave it in the dict twice.
\<close>

theorem exclusion_duplicates_counterexample:
  "passes (Suc (Suc 0)) scripted alice
     \<lparr>stanza_of = prepared alice ''OMEMO'', expect_problems = [],
      world_of = \<lparr>omemo = [Inl (EncryptionPrepareException [MissingBundleException ''bob@example.org'' 2]),
                           Inl (EncryptionPrepareException [MissingBundleException ''bob@example.org'' 2]),
                           Inr (Envelope ''c'')],
                  trace = []\<rparr>\<rparr> =
   (Continue,
     \<lparr>stanza_of = prepared alice ''OMEMO'',
      expect_problems = [(JID ''bob@example.org'', [2, 2])],
      world_of = \<lparr>omemo = [Inr (Envelope ''c'')],
                  trace = [EncryptCall ''hello'' [JID ''bob@example.org''] [],
                           Disconnect,
                           EncryptCall ''hello'' [JID ''bob@example.org''] [(JID ''bob@example.org'', [2])],
                           Disconnect]\<rparr>\<rparr>)
   \<and> \<not> distinct (entries [(JID ''bob@example.org'', [2, 2])])"
  by (simp add: loop_body_def scripted_simps alice_simps never_awaited_def disconnect_def
          Let_def entries_def)

text \<open>
  C5. When an attempt raises trust-undecided with a recipient, a device and a key, the
  pass calls \<^verbatim>\<open>trust\<close> with exactly these three and the loop goes on: the next pass
  opens with an encryption request for the same plaintext, recipient and exclusion dict.
  For a recipient with a trusted device A and an undecided device B, the first attempt
  raises trust-undecided for B, the decision for B is recorded, the second attempt
  succeeds, and exactly one stanza is sent.
\<close>

theorem trust_undecided_retry:
  "(encrypt_message P (omemo (world_of st)) (msg self) [JID (to self)] (expect_problems st)
      = (Inl (UndecidedException j d k), p') \<longrightarrow>
      loop_body P self st =
        (Continue,
         st\<lparr>world_of := (world_of st)\<lparr>omemo := trust P p' j d k,
               trace := trace (world_of st) @
                 [EncryptCall (msg self) [JID (to self)] (expect_problems st),
                  TrustCall j d k, Disconnect]\<rparr>\<rparr>)
      \<and> encrypted_send_loop P self st =
          encrypted_send_loop P self
            (st\<lparr>world_of := (world_of st)\<lparr>omemo := trust P p' j d k,
               trace := trace (world_of st) @
                 [EncryptCall (msg self) [JID (to self)] (expect_problems st),
                  TrustCall j d k, Disconnect]\<rparr>\<rparr>)
      \<and> (\<exists>evs. trace (world_of (snd (loop_body P self
            (st\<lparr>world_of := (world_of st)\<lparr>omemo := trust P p' j d k,
               trace := trace (world_of st) @
                 [EncryptCall (msg self) [JID (to self)] (expect_problems st),
                  TrustCall j d k, Disconnect]\<rparr>\<rparr>)))) =
            (trace (world_of st) @
                 [EncryptCall (msg self) [JID (to self)] (expect_problems st),
                  TrustCall j d k, Disconnect])
              @ EncryptCall (msg self) [JID (to self)] (expect_problems st) # evs))
   \<and> encrypt_message healthy_mock [device_A, device_B] ''hello'' [JID ''bob@example.org''] []
       = (Inl (UndecidedException ''bob@example.org'' 2 ''ikB''), [device_A, device_B])
   \<and> encrypted_send healthy_mock alice \<lparr>omemo = [device_A, device_B], trace = []\<rparr> =
       Some (Return SendResult,
         \<lparr>omemo = [device_A, device_B\<lparr>decided := True\<rparr>],
          trace = [EncryptCall ''hello'' [JID ''bob@example.org''] [],
                   TrustCall ''bob@example.org'' 2 ''ikB'',
                   Disconnect,
                   EncryptCall ''hello'' [JID ''bob@example.org''] [],
                   Send ((prepared alice ''OMEMO'')\<lparr>payload := [Envelope ''hello'']\<rparr>),
                   Disconnect]\<rparr>)
   \<and> sent [EncryptCall ''hello'' [JID ''bob@example.org''] [],
                   TrustCall ''bob@example.org'' 2 ''ikB'',
                   Disconnect,
                   EncryptCall ''hello'' [JID ''bob@example.org''] [],
                   Send ((prepared alice ''OMEMO'')\<lparr>payload := [Envelope ''hello'']\<rparr>),
                   Disconnect]
       = [(prepared alice ''OMEMO'')\<lparr>payload := [Envelope ''hello'']\<rparr>]"
proof (intro conjI impI)
  assume u: "encrypt_message P (omemo (world_of st)) (msg self) [JID (to self)]
               (expect_problems st) = (Inl (UndecidedException j d k), p')"
  let ?st' = "st\<lparr>world_of := (world_of st)\<lparr>omemo := trust P p' j d k,
               trace := trace (world_of st) @
                 [EncryptCall (msg self) [JID (to self)] (expect_problems st),
                  TrustCall j d k, Disconnect]\<rparr>\<rparr>"
  show b: "loop_body P self st = (Continue, ?st')"
    by (rule loop_body_Undecided[OF u])
  show "encrypted_send_loop P self st = encrypted_send_loop P self ?st'"
    by (rule loop_continue[OF b])
  from loop_body_trace_head[of P self ?st']
  show "\<exists>evs. trace (world_of (snd (loop_body P self ?st'))) =
            (trace (world_of st) @
                 [EncryptCall (msg self) [JID (to self)] (expect_problems st),
                  TrustCall j d k, Disconnect])
              @ EncryptCall (msg self) [JID (to self)] (expect_problems st) # evs"
    by simp
next
  show "encrypt_message healthy_mock [device_A, device_B] ''hello'' [JID ''bob@example.org''] []
       = (Inl (UndecidedException ''bob@example.org'' 2 ''ikB''), [device_A, device_B])"
    by (simp add: healthy_mock_def device_A_def device_B_def)
next
  show "encrypted_send healthy_mock alice \<lparr>omemo = [device_A, device_B], trace = []\<rparr> =
       Some (Return SendResult,
         \<lparr>omemo = [device_A, device_B\<lparr>decided := True\<rparr>],
          trace = [EncryptCall ''hello'' [JID ''bob@example.org''] [],
                   TrustCall ''bob@example.org'' 2 ''ikB'',
                   Disconnect,
                   EncryptCall ''hello'' [JID ''bob@example.org''] [],
                   Send ((prepared alice ''OMEMO'')\<lparr>payload := [Envelope ''hello'']\<rparr>),
                   Disconnect]\<rparr>)"
    by (rule scenario_run)
next
  show "sent [EncryptCall ''hello'' [JID ''bob@example.org''] [],
                   TrustCall ''bob@example.org'' 2 ''ikB'',
                   Disconnect,
                   EncryptCall ''hello'' [JID ''bob@example.org''] [],
                   Send ((prepared alice ''OMEMO'')\<lparr>payload := [Envelope ''hello'']\<rparr>),
                   Disconnect]
       = [(prepared alice ''OMEMO'')\<lparr>payload := [Envelope ''hello'']\<rparr>]"
    by simp
qed

theorem trust_undecided_retry_witness:
  "encrypt_message healthy_mock [device_A, device_B] (msg alice) [JID (to alice)] []
     = (Inl (UndecidedException ''bob@example.org'' 2 ''ikB''), [device_A, device_B])
   \<and> loop_body healthy_mock alice
        \<lparr>stanza_of = prepared alice ''OMEMO'', expect_problems = [],
         world_of = \<lparr>omemo = [device_A, device_B], trace = []\<rparr>\<rparr> =
       (Continue,
        \<lparr>stanza_of = prepared alice ''OMEMO'', expect_problems = [],
         world_of = \<lparr>omemo = [device_A, device_B\<lparr>decided := True\<rparr>],
                     trace = [EncryptCall ''hello'' [JID ''bob@example.org''] [],
                              TrustCall ''bob@example.org'' 2 ''ikB'',
                              Disconnect]\<rparr>\<rparr>)"
proof -
  let ?st = "\<lparr>stanza_of = prepared alice ''OMEMO'', expect_problems = [],
              world_of = \<lparr>omemo = [device_A, device_B], trace = []\<rparr>\<rparr>"
  have u: "encrypt_message healthy_mock (omemo (world_of ?st)) (msg alice) [JID (to alice)]
             (expect_problems ?st)
           = (Inl (UndecidedException ''bob@example.org'' 2 ''ikB''), [device_A, device_B])"
    by (simp add: healthy_mock_def device_A_def device_B_def alice_simps)
  from trust_undecided_retry[where P = healthy_mock and self = alice and st = ?st
         and j = "''bob@example.org''" and d = 2 and k = "''ikB''"
         and p' = "[device_A, device_B]"] u
  show ?thesis
    by (simp add: healthy_mock_def record_trust_def device_A_def device_B_def alice_simps)
qed

text \<open>
  C6. The claim asks for an advisory per missing bundle. On line 129 the coroutine made by
  \<^verbatim>\<open>plain_send\<close> is not awaited: a missing bundle for device 2 puts the device into
  the exclusion dict and the loop retries with it, but the only stanza the run dispatches
  is the encrypted one.
\<close>

theorem missing_bundle_sends_no_advisory:
  "encrypted_send scripted alice
     \<lparr>omemo = [Inl (EncryptionPrepareException [MissingBundleException ''bob@example.org'' 2]),
               Inr (Envelope ''c'')],
      trace = []\<rparr> =
     Some (Return SendResult,
       \<lparr>omemo = [],
        trace = [EncryptCall ''hello'' [JID ''bob@example.org''] [],
                 Disconnect,
                 EncryptCall ''hello'' [JID ''bob@example.org''] [(JID ''bob@example.org'', [2])],
                 Send ((prepared alice ''OMEMO'')\<lparr>payload := [Envelope ''c'']\<rparr>),
                 Disconnect]\<rparr>)
   \<and> advisories [EncryptCall ''hello'' [JID ''bob@example.org''] [],
                 Disconnect,
                 EncryptCall ''hello'' [JID ''bob@example.org''] [(JID ''bob@example.org'', [2])],
                 Send ((prepared alice ''OMEMO'')\<lparr>payload := [Envelope ''c'']\<rparr>),
                 Disconnect] = []"
proof -
  let ?st = "\<lparr>stanza_of = prepared alice ''OMEMO'', expect_problems = [],
              world_of = \<lparr>omemo = [Inl (EncryptionPrepareException [MissingBundleException ''bob@example.org'' 2]),
               Inr (Envelope ''c'')], trace = []\<rparr>\<rparr>"
  have "passes (Suc (Suc 0)) scripted alice ?st =
     (Exit (Return SendResult),
      \<lparr>stanza_of = (prepared alice ''OMEMO'')\<lparr>payload := [Envelope ''c'']\<rparr>,
       expect_problems = [(JID ''bob@example.org'', [2])],
       world_of = \<lparr>omemo = [],
             trace = [EncryptCall ''hello'' [JID ''bob@example.org''] [],
                 Disconnect,
                 EncryptCall ''hello'' [JID ''bob@example.org''] [(JID ''bob@example.org'', [2])],
                 Send ((prepared alice ''OMEMO'')\<lparr>payload := [Envelope ''c'']\<rparr>),
                 Disconnect]\<rparr>\<rparr>)"
    by (simp add: loop_body_def scripted_simps alice_simps never_awaited_def disconnect_def
          send_def Let_def prepared_def)
  from passes_loop[OF this]
  show ?thesis by (simp add: encrypted_send_unfold[OF alice_simps(3)] advisories_def prepared_def)
qed

text \<open>
  C7, as amended. An unclassified failure makes the pass dispatch one advisory stanza
  before its \<^verbatim>\<open>disconnect\<close>, and the exception is raised again. A prepare-failed
  signal none of whose sub-errors is a missing bundle produces no advisory: the pass only
  disconnects, and the loop goes on with the exclusion dict unchanged.
\<close>

theorem unclassified_failure_advisory:
  "(encrypt_message P (omemo (world_of st)) (msg self) [JID (to self)] (expect_problems st)
      = (Inl (OtherException x), p') \<longrightarrow>
      encrypted_send_loop P self st =
        Some (Raise (OtherException x),
              (world_of st)\<lparr>omemo := p',
                 trace := trace (world_of st) @
                   [EncryptCall (msg self) [JID (to self)] (expect_problems st),
                    Send \<lparr>mto = to self, mtype = ''chat'',
                          body = Some (encrypt_error_text (OtherException x)),
                          eme_namespace = None, eme_name = None, payload = []\<rparr>,
                    Disconnect]\<rparr>))
   \<and> (encrypt_message P (omemo (world_of st)) (msg self) [JID (to self)] (expect_problems st)
      = (Inl (EncryptionPrepareException errors), p') \<and> reported errors = [] \<longrightarrow>
      loop_body P self st =
        (Continue,
         st\<lparr>world_of := (world_of st)\<lparr>omemo := p',
               trace := trace (world_of st) @
                 [EncryptCall (msg self) [JID (to self)] (expect_problems st),
                  Disconnect]\<rparr>\<rparr>))"
proof (intro conjI impI)
  assume "encrypt_message P (omemo (world_of st)) (msg self) [JID (to self)] (expect_problems st)
      = (Inl (OtherException x), p')"
  from loop_exit[OF loop_body_Other[OF this]]
  show "encrypted_send_loop P self st =
        Some (Raise (OtherException x),
              (world_of st)\<lparr>omemo := p',
                 trace := trace (world_of st) @
                   [EncryptCall (msg self) [JID (to self)] (expect_problems st),
                    Send \<lparr>mto = to self, mtype = ''chat'',
                          body = Some (encrypt_error_text (OtherException x)),
                          eme_namespace = None, eme_name = None, payload = []\<rparr>,
                    Disconnect]\<rparr>)"
    by simp
next
  assume a: "encrypt_message P (omemo (world_of st)) (msg self) [JID (to self)] (expect_problems st)
      = (Inl (EncryptionPrepareException errors), p') \<and> reported errors = []"
  then have "fst (prepare_errors self errors (expect_problems st, world_of st)) = expect_problems st"
    by (simp add: prepare_errors_none_reported)
  with loop_body_Prepare[of P st self errors p'] a
  show "loop_body P self st =
        (Continue,
         st\<lparr>world_of := (world_of st)\<lparr>omemo := p',
               trace := trace (world_of st) @
                 [EncryptCall (msg self) [JID (to self)] (expect_problems st),
                  Disconnect]\<rparr>\<rparr>)"
    by simp
qed

theorem unclassified_failure_advisory_witness:
  "encrypt_message scripted [Inl (OtherException ''ValueError()'')] (msg alice) [JID (to alice)] []
     = (Inl (OtherException ''ValueError()''), [])
   \<and> encrypted_send_loop scripted alice
        \<lparr>stanza_of = prepared alice ''OMEMO'', expect_problems = [],
         world_of = \<lparr>omemo = [Inl (OtherException ''ValueError()'')], trace = []\<rparr>\<rparr> =
       Some (Raise (OtherException ''ValueError()''),
             \<lparr>omemo = [],
              trace = [EncryptCall ''hello'' [JID ''bob@example.org''] [],
                       Send \<lparr>mto = ''bob@example.org'', mtype = ''chat'',
                             body = Some (encrypt_error_text (OtherException ''ValueError()'')),
                             eme_namespace = None, eme_name = None, payload = []\<rparr>,
                       Disconnect]\<rparr>)
   \<and> encrypt_message scripted
        [Inl (EncryptionPrepareException [OtherSubError ''NoEligibleDevices''])]
        (msg alice) [JID (to alice)] []
     = (Inl (EncryptionPrepareException [OtherSubError ''NoEligibleDevices'']), [])
   \<and> reported [OtherSubError ''NoEligibleDevices''] = []
   \<and> loop_body scripted alice
        \<lparr>stanza_of = prepared alice ''OMEMO'', expect_problems = [],
         world_of = \<lparr>omemo = [Inl (EncryptionPrepareException [OtherSubError ''NoEligibleDevices''])],
                     trace = []\<rparr>\<rparr> =
       (Continue,
        \<lparr>stanza_of = prepared alice ''OMEMO'', expect_problems = [],
         world_of = \<lparr>omemo = [],
                     trace = [EncryptCall ''hello'' [JID ''bob@example.org''] [],
                              Disconnect]\<rparr>\<rparr>)"
proof -
  let ?s1 = "\<lparr>stanza_of = prepared alice ''OMEMO'', expect_problems = [],
         world_of = \<lparr>omemo = [Inl (OtherException ''ValueError()'')], trace = []\<rparr>\<rparr>"
  let ?s2 = "\<lparr>stanza_of = prepared alice ''OMEMO'', expect_problems = [],
         world_of = \<lparr>omemo = [Inl (EncryptionPrepareException [OtherSubError ''NoEligibleDevices''])],
                     trace = []\<rparr>\<rparr>"
  from unclassified_failure_advisory[where P = scripted and self = alice and st = ?s1
         and x = "''ValueError()''" and p' = "[]"
         and errors = "[OtherSubError ''NoEligibleDevices'']"]
  have a: "encrypted_send_loop scripted alice ?s1 =
       Some (Raise (OtherException ''ValueError()''),
             \<lparr>omemo = [],
              trace = [EncryptCall ''hello'' [JID ''bob@example.org''] [],
                       Send \<lparr>mto = ''bob@example.org'', mtype = ''chat'',
                             body = Some (encrypt_error_text (OtherException ''ValueError()'')),
                             eme_namespace = None, eme_name = None, payload = []\<rparr>,
                       Disconnect]\<rparr>)"
    by (simp add: scripted_simps alice_simps)
  from unclassified_failure_advisory[where P = scripted and self = alice and st = ?s2
         and x = "''ValueError()''" and p' = "[]"
         and errors = "[OtherSubError ''NoEligibleDevices'']"]
  have b: "loop_body scripted alice ?s2 =
       (Continue,
        \<lparr>stanza_of = prepared alice ''OMEMO'', expect_problems = [],
         world_of = \<lparr>omemo = [],
                     trace = [EncryptCall ''hello'' [JID ''bob@example.org''] [],
                              Disconnect]\<rparr>\<rparr>)"
    by (simp add: scripted_simps alice_simps)
  from a b show ?thesis by (simp add: scripted_simps)
qed

text \<open>
  The claim as first stated promises an advisory for a prepare-failed signal with another
  kind of sub-error. The handler looks at missing bundles only: the session is torn down
  after the first pass, and the whole run dispatches no stanza with a body.
\<close>

theorem other_sub_error_counterexample:
  "encrypted_send scripted alice
     \<lparr>omemo = [Inl (EncryptionPrepareException [OtherSubError ''NoEligibleDevices'']),
               Inr (Envelope ''c'')],
      trace = []\<rparr> =
     Some (Return SendResult,
       \<lparr>omemo = [],
        trace = [EncryptCall ''hello'' [JID ''bob@example.org''] [],
                 Disconnect,
                 EncryptCall ''hello'' [JID ''bob@example.org''] [],
                 Send ((prepared alice ''OMEMO'')\<lparr>payload := [Envelope ''c'']\<rparr>),
                 Disconnect]\<rparr>)
   \<and> advisories [EncryptCall ''hello'' [JID ''bob@example.org''] [],
                 Disconnect,
                 EncryptCall ''hello'' [JID ''bob@example.org''] [],
                 Send ((prepared alice ''OMEMO'')\<lparr>payload := [Envelope ''c'']\<rparr>),
                 Disconnect] = []"
proof -
  let ?st = "\<lparr>stanza_of = prepared alice ''OMEMO'', expect_problems = [],
              world_of = \<lparr>omemo = [Inl (EncryptionPrepareException [OtherSubError ''NoEligibleDevices'']),
               Inr (Envelope ''c'')], trace = []\<rparr>\<rparr>"
  have "passes (Suc (Suc 0)) scripted alice ?st =
     (Exit (Return SendResult),
      \<lparr>stanza_of = (prepared alice ''OMEMO'')\<lparr>payload := [Envelope ''c'']\<rparr>,
       expect_problems = [],
       world_of = \<lparr>omemo = [],
             trace = [EncryptCall ''hello'' [JID ''bob@example.org''] [],
                 Disconnect,
                 EncryptCall ''hello'' [JID ''bob@example.org''] [],
                 Send ((prepared alice ''OMEMO'')\<lparr>payload := [Envelope ''c'']\<rparr>),
                 Disconnect]\<rparr>\<rparr>)"
    by (simp add: loop_body_def scripted_simps alice_simps never_awaited_def disconnect_def
          send_def Let_def prepared_def)
  from passes_loop[OF this]
  show ?thesis by (simp add: encrypted_send_unfold[OF alice_simps(3)] advisories_def prepared_def)
qed

text \<open>
  C8, as amended. Against a plugin that resolves recorded trust decisions, the trust
  retries end: after at most \<open>\<mu>\<close> passes, each answered by trust-undecided and none of
  them sending a stanza or touching the exclusion dict, an attempt gets another outcome.
  On an envelope the run returns after sending the encrypted stanza, on a fetch error it
  returns \<^verbatim>\<open>None\<close>, on an unclassified exception it sends the advisory and raises. On
  a prepare-failed signal the loop goes on from the state its handler leaves, and nothing
  is promised about the end of that run.
\<close>

theorem auto_trust_retries_end:
  assumes h: "resolves_trust P \<mu>"
  shows "\<exists>n st'. n \<le> \<mu> (omemo (world_of st))
           \<and> passes n P self st = (Continue, st')
           \<and> (\<forall>i<n. is_undecided (next_outcome P self (snd (passes i P self st))))
           \<and> stanza_of st' = stanza_of st
           \<and> expect_problems st' = expect_problems st
           \<and> sent (trace (world_of st')) = sent (trace (world_of st))
           \<and> \<not> is_undecided (next_outcome P self st')
           \<and> ends_by P self st' (encrypted_send_loop P self st)"
proof (induction "\<mu> (omemo (world_of st))" arbitrary: st rule: less_induct)
  case less
  obtain r p' where e: "encrypt_message P (omemo (world_of st)) (msg self) [JID (to self)]
                          (expect_problems st) = (r, p')"
    by (cases "encrypt_message P (omemo (world_of st)) (msg self) [JID (to self)]
                 (expect_problems st)")
  then have no: "next_outcome P self st = r" by (simp add: next_outcome_def)
  show ?case
  proof (cases "is_undecided r")
    case False
    with no have "\<not> is_undecided (next_outcome P self st)" by simp
    from ends_by_now[OF this] this
    have "0 \<le> \<mu> (omemo (world_of st))
           \<and> passes 0 P self st = (Continue, st)
           \<and> (\<forall>i<0. is_undecided (next_outcome P self (snd (passes i P self st))))
           \<and> stanza_of st = stanza_of st
           \<and> expect_problems st = expect_problems st
           \<and> sent (trace (world_of st)) = sent (trace (world_of st))
           \<and> \<not> is_undecided (next_outcome P self st)
           \<and> ends_by P self st (encrypted_send_loop P self st)"
      by simp
    then show ?thesis by blast
  next
    case True
    then obtain j d k where r: "r = Inl (UndecidedException j d k)"
      by (auto simp: is_undecided_iff)
    let ?st1 = "st\<lparr>world_of := (world_of st)\<lparr>omemo := trust P p' j d k,
               trace := trace (world_of st) @
                 [EncryptCall (msg self) [JID (to self)] (expect_problems st),
                  TrustCall j d k, Disconnect]\<rparr>\<rparr>"
    from e r have b: "loop_body P self st = (Continue, ?st1)"
      by (simp add: loop_body_Undecided)
    from h e r have lt: "\<mu> (omemo (world_of ?st1)) < \<mu> (omemo (world_of st))"
      by (simp add: resolves_trust_def)
    from less[OF lt] obtain n st' where ih:
      "n \<le> \<mu> (omemo (world_of ?st1))"
      "passes n P self ?st1 = (Continue, st')"
      "\<forall>i<n. is_undecided (next_outcome P self (snd (passes i P self ?st1)))"
      "stanza_of st' = stanza_of ?st1"
      "expect_problems st' = expect_problems ?st1"
      "sent (trace (world_of st')) = sent (trace (world_of ?st1))"
      "\<not> is_undecided (next_outcome P self st')"
      "ends_by P self st' (encrypted_send_loop P self ?st1)"
      by blast
    from ih(1) lt have 1: "Suc n \<le> \<mu> (omemo (world_of st))" by simp
    from b ih(2) have 2: "passes (Suc n) P self st = (Continue, st')" by simp
    have 3: "\<forall>i<Suc n. is_undecided (next_outcome P self (snd (passes i P self st)))"
    proof (intro allI impI)
      fix i assume i: "i < Suc n"
      show "is_undecided (next_outcome P self (snd (passes i P self st)))"
      proof (cases i)
        case 0
        with no True show ?thesis by simp
      next
        case (Suc i')
        with i ih(3) b show ?thesis by simp
      qed
    qed
    from ih(4) have 4: "stanza_of st' = stanza_of st" by simp
    from ih(5) have 5: "expect_problems st' = expect_problems st" by simp
    from ih(6) have 6: "sent (trace (world_of st')) = sent (trace (world_of st))"
      by (simp add: sent_append)
    from loop_continue[OF b] ih(8)
    have 8: "ends_by P self st' (encrypted_send_loop P self st)" by simp
    from 1 2 3 4 5 6 ih(7) 8 show ?thesis by blast
  qed
qed

theorem auto_trust_retries_end_witness:
  "resolves_trust healthy_mock undecided_count
   \<and> passes (Suc 0) healthy_mock alice
       \<lparr>stanza_of = prepared alice ''OMEMO'', expect_problems = [],
        world_of = \<lparr>omemo = [device_A, device_B], trace = []\<rparr>\<rparr>
     = (Continue,
        \<lparr>stanza_of = prepared alice ''OMEMO'', expect_problems = [],
         world_of = \<lparr>omemo = [device_A, device_B\<lparr>decided := True\<rparr>],
                     trace = [EncryptCall ''hello'' [JID ''bob@example.org''] [],
                              TrustCall ''bob@example.org'' 2 ''ikB'',
                              Disconnect]\<rparr>\<rparr>)
   \<and> (\<exists>n st'. n \<le> undecided_count [device_A, device_B]
           \<and> passes n healthy_mock alice
                \<lparr>stanza_of = prepared alice ''OMEMO'', expect_problems = [],
                 world_of = \<lparr>omemo = [device_A, device_B], trace = []\<rparr>\<rparr> = (Continue, st')
           \<and> sent (trace (world_of st')) = []
           \<and> \<not> is_undecided (next_outcome healthy_mock alice st')
           \<and> ends_by healthy_mock alice st'
                (encrypted_send_loop healthy_mock alice
                   \<lparr>stanza_of = prepared alice ''OMEMO'', expect_problems = [],
                    world_of = \<lparr>omemo = [device_A, device_B], trace = []\<rparr>\<rparr>))"
proof -
  have h: "resolves_trust healthy_mock undecided_count" by (rule healthy_mock_resolves)
  have p: "passes (Suc 0) healthy_mock alice
       \<lparr>stanza_of = prepared alice ''OMEMO'', expect_problems = [],
        world_of = \<lparr>omemo = [device_A, device_B], trace = []\<rparr>\<rparr>
     = (Continue,
        \<lparr>stanza_of = prepared alice ''OMEMO'', expect_problems = [],
         world_of = \<lparr>omemo = [device_A, device_B\<lparr>decided := True\<rparr>],
                     trace = [EncryptCall ''hello'' [JID ''bob@example.org''] [],
                              TrustCall ''bob@example.org'' 2 ''ikB'',
                              Disconnect]\<rparr>\<rparr>)"
    by (simp add: loop_body_def healthy_mock_def alice_simps device_A_def device_B_def
          record_trust_def disconnect_def Let_def)
  from auto_trust_retries_end[OF h, of "\<lparr>stanza_of = prepared alice ''OMEMO'', expect_problems = [],
        world_of = \<lparr>omemo = [device_A, device_B], trace = []\<rparr>\<rparr>" alice]
  have "\<exists>n st'. n \<le> undecided_count [device_A, device_B]
           \<and> passes n healthy_mock alice
                \<lparr>stanza_of = prepared alice ''OMEMO'', expect_problems = [],
                 world_of = \<lparr>omemo = [device_A, device_B], trace = []\<rparr>\<rparr> = (Continue, st')
           \<and> sent (trace (world_of st')) = []
           \<and> \<not> is_undecided (next_outcome healthy_mock alice st')
           \<and> ends_by healthy_mock alice st'
                (encrypted_send_loop healthy_mock alice
                   \<lparr>stanza_of = prepared alice ''OMEMO'', expect_problems = [],
                    world_of = \<lparr>omemo = [device_A, device_B], trace = []\<rparr>\<rparr>)"
    by auto
  with h p show ?thesis by blast
qed

text \<open>
  The claim as first stated says that the invocation ends. A plugin can resolve every
  recorded trust decision and still keep the loop going: with one device to decide, the
  first attempt raises trust-undecided, the decision is recorded, and every later attempt
  raises a prepare-failed signal that the handler passes over. The run never leaves the loop.
\<close>

theorem resolved_trust_endless_counterexample:
  "resolves_trust stubborn id
   \<and> next_outcome stubborn alice
        \<lparr>stanza_of = prepared alice ''OMEMO'', expect_problems = [],
         world_of = \<lparr>omemo = Suc 0, trace = []\<rparr>\<rparr>
       = Inl (UndecidedException ''bob@example.org'' 1 ''ik'')
   \<and> encrypted_send stubborn alice \<lparr>omemo = Suc 0, trace = []\<rparr> = None"
proof -
  have o: "next_outcome stubborn alice
        \<lparr>stanza_of = prepared alice ''OMEMO'', expect_problems = [],
         world_of = \<lparr>omemo = Suc 0, trace = []\<rparr>\<rparr>
       = Inl (UndecidedException ''bob@example.org'' 1 ''ik'')"
    by (simp add: next_outcome_def stubborn_def)
  have n: "encrypted_send stubborn alice \<lparr>omemo = Suc 0, trace = []\<rparr> = None"
    by (simp add: encrypted_send_unfold[OF alice_simps(3)] stubborn_loop)
  from stubborn_resolves o n show ?thesis by blast
qed

text \<open>
  C9. For an object built by \<^verbatim>\<open>SendMsg(jid, password, t, message)\<close>, every encryption
  request of the loop, after any number of passes from any loop state and in every run
  that returns or raises, asks for the same \<open>message\<close> and the one-element list
  \<open>[JID t]\<close>. No function of the model returns a changed object.
\<close>

theorem same_plaintext_and_recipient:
  assumes init: "self = SendMsg jid password t message table"
  shows "(\<exists>k\<le>n. encrypt_requests (trace (world_of (snd (passes n P self st)))) =
            encrypt_requests (trace (world_of st)) @ replicate k (message, [JID t]))
       \<and> (encrypted_send P self w = Some (r, w') \<longrightarrow>
            (\<exists>k. encrypt_requests (trace w') =
               encrypt_requests (trace w) @ replicate k (message, [JID t])))"
proof
  from init have m: "msg self = message" "to self = t" by (simp_all add: SendMsg_def)
  from passes_requests[of n P self st] m
  show "\<exists>k\<le>n. encrypt_requests (trace (world_of (snd (passes n P self st)))) =
            encrypt_requests (trace (world_of st)) @ replicate k (message, [JID t])"
    by simp
  show "encrypted_send P self w = Some (r, w') \<longrightarrow>
            (\<exists>k. encrypt_requests (trace w') =
               encrypt_requests (trace w) @ replicate k (message, [JID t]))"
  proof
    assume run: "encrypted_send P self w = Some (r, w')"
    show "\<exists>k. encrypt_requests (trace w') =
               encrypt_requests (trace w) @ replicate k (message, [JID t])"
    proof (cases "map_of (mechanisms self) eme_ns")
      case None
      with run have "w' = w" by (simp add: encrypted_send_def)
      then have "encrypt_requests (trace w') =
               encrypt_requests (trace w) @ replicate 0 (message, [JID t])" by simp
      then show ?thesis by blast
    next
      case (Some name)
      let ?st = "\<lparr>stanza_of = prepared self name, expect_problems = [], world_of = w\<rparr>"
      from run have "encrypted_send_loop P self ?st = Some (r, w')"
        by (simp add: encrypted_send_unfold[OF Some])
      from loop_passes_aux[OF this] obtain n' st' where
        p: "passes n' P self ?st = (Exit r, st')" "world_of st' = w'" by auto
      from passes_requests[of n' P self ?st] p m show ?thesis by auto
    qed
  qed
qed

theorem same_plaintext_and_recipient_witness:
  "alice = SendMsg ''sender@example.com'' ''YOUR_STRONG_PASS'' ''bob@example.org'' ''hello''
             [(eme_ns, ''OMEMO'')]
   \<and> encrypted_send healthy_mock alice \<lparr>omemo = [device_A, device_B], trace = []\<rparr> =
     Some (Return SendResult,
       \<lparr>omemo = [device_A, device_B\<lparr>decided := True\<rparr>],
        trace = [EncryptCall ''hello'' [JID ''bob@example.org''] [],
                 TrustCall ''bob@example.org'' 2 ''ikB'',
                 Disconnect,
                 EncryptCall ''hello'' [JID ''bob@example.org''] [],
                 Send ((prepared alice ''OMEMO'')\<lparr>payload := [Envelope ''hello'']\<rparr>),
                 Disconnect]\<rparr>)
   \<and> (\<exists>k. encrypt_requests
            [EncryptCall ''hello'' [JID ''bob@example.org''] [],
                 TrustCall ''bob@example.org'' 2 ''ikB'',
                 Disconnect,
                 EncryptCall ''hello'' [JID ''bob@example.org''] [],
                 Send ((prepared alice ''OMEMO'')\<lparr>payload := [Envelope ''hello'']\<rparr>),
                 Disconnect]
          = replicate k (''hello'', [JID ''bob@example.org'']))"
proof -
  have i: "alice = SendMsg ''sender@example.com'' ''YOUR_STRONG_PASS'' ''bob@example.org''
             ''hello'' [(eme_ns, ''OMEMO'')]"
    by (simp add: alice_def)
  from same_plaintext_and_recipient[OF i, where n = 0 and P = healthy_mock
         and st = "\<lparr>stanza_of = prepared alice ''OMEMO'', expect_problems = [],
           world_of = \<lparr>omemo = [device_A, device_B], trace = []\<rparr>\<rparr>"
         and w = "\<lparr>omemo = [device_A, device_B], trace = []\<rparr>"
         and r = "Return SendResult"
         and w' = "\<lparr>omemo = [device_A, device_B\<lparr>decided := True\<rparr>],
        trace = [EncryptCall ''hello'' [JID ''bob@example.org''] [],
                 TrustCall ''bob@example.org'' 2 ''ikB'',
                 Disconnect,
                 EncryptCall ''hello'' [JID ''bob@example.org''] [],
                 Send ((prepared alice ''OMEMO'')\<lparr>payload := [Envelope ''hello'']\<rparr>),
                 Disconnect]\<rparr>"]
    i scenario_run
  show ?thesis by simp
qed

text \<open>
  C10, as amended. For every string that is not empty, \<^verbatim>\<open>plain_send\<close>, awaited, builds
  one stanza of type \<^verbatim>\<open>chat\<close> addressed to \<^verbatim>\<open>self.to\<close> whose body is the given
  string, dispatches exactly that stanza and returns what \<^verbatim>\<open>send\<close> returned; the
  plugin state is untouched.
\<close>

theorem plain_send_one_chat_stanza:
  assumes "message \<noteq> []"
  shows "await (plain_send self message) w =
     send \<lparr>mto = to self, mtype = ''chat'', body = Some message,
           eme_namespace = None, eme_name = None, payload = []\<rparr> w
   \<and> fst (await (plain_send self message) w) = SendResult
   \<and> trace (snd (await (plain_send self message) w)) =
       trace w @ [Send \<lparr>mto = to self, mtype = ''chat'', body = Some message,
                        eme_namespace = None, eme_name = None, payload = []\<rparr>]
   \<and> omemo (snd (await (plain_send self message) w)) = omemo w"
  using assms by (simp add: await_def plain_send_def make_message_def set_body_def send_def)

theorem plain_send_one_chat_stanza_witness:
  "''hi'' \<noteq> []
   \<and> await (plain_send alice ''hi'') \<lparr>omemo = (), trace = []\<rparr> =
       (SendResult,
        \<lparr>omemo = (),
         trace = [Send \<lparr>mto = ''bob@example.org'', mtype = ''chat'', body = Some ''hi'',
                        eme_namespace = None, eme_name = None, payload = []\<rparr>]\<rparr>)"
proof -
  have n: "''hi'' \<noteq> []" by simp
  from plain_send_one_chat_stanza[OF n, of alice "\<lparr>omemo = (), trace = []\<rparr>"] n
  show ?thesis by (simp add: send_def alice_simps)
qed

text \<open>
  The claim as first stated covers every string. For the empty string the setter removes
  the body element, so the stanza that is dispatched has no body at all.
\<close>

theorem plain_send_empty_counterexample:
  "await (plain_send alice []) \<lparr>omemo = (), trace = []\<rparr> =
     (SendResult,
      \<lparr>omemo = (),
       trace = [Send \<lparr>mto = ''bob@example.org'', mtype = ''chat'', body = None,
                      eme_namespace = None, eme_name = None, payload = []\<rparr>]\<rparr>)
   \<and> body \<lparr>mto = ''bob@example.org'', mtype = ''chat'', body = None,
            eme_namespace = None, eme_name = None, payload = []\<rparr> \<noteq> Some []"
  by (simp add: await_def plain_send_def make_message_def set_body_def send_def alice_simps)

end
